theory Spec2Isabelle
  imports Complex_Main "HOL-Library.AList"
begin

section \<open>Python primitives used by the sources\<close>

text \<open>
  Python exceptions are values.  Only subclasses of \<open>Exception\<close> occur; the collaborators
  (embedding model, text generator) may raise anything, which is \<open>OtherError\<close>.
\<close>

datatype error =
    ValueError
  | AssertionError
  | IndexError
  | KeyError
  | AttributeError
  | ZeroDivisionError
  | FileNotFoundError
  | FileExistsError
  | NotADirectoryError
  | IsADirectoryError
  | RuntimeError
  | UnpicklingError
  | TypeError
  | OtherError string

text \<open>
  A Python \<open>str\<close> is a \<open>string\<close>; characters are 8-bit code points.  The slice
  \<open>xs[start:end]\<close> never raises: a negative bound counts from the end, and both bounds
  are clipped to \<open>0 .. len(xs)\<close>.
\<close>

definition py_clip :: "nat \<Rightarrow> int \<Rightarrow> nat" where
  "py_clip n i = (let j = (if i < 0 then i + int n else i) in nat (max 0 (min (int n) j)))"

definition py_slice :: "'a list \<Rightarrow> int \<Rightarrow> int \<Rightarrow> 'a list" where
  "py_slice xs start endp =
     (let lo = py_clip (length xs) start; hi = py_clip (length xs) endp
      in take (hi - lo) (drop lo xs))"

text \<open>The subscript \<open>xs[i]\<close> of a list: the positions \<open>-len(xs) .. -1\<close> address the list
  from its end, and every position outside \<open>-len(xs) .. len(xs) - 1\<close> raises IndexError.\<close>

definition py_get :: "'a list \<Rightarrow> int \<Rightarrow> error + 'a" where
  "py_get xs i =
     (if 0 \<le> i \<and> i < int (length xs) then Inr (xs ! nat i)
      else if i < 0 \<and> - int (length xs) \<le> i then Inr (xs ! nat (int (length xs) + i))
      else Inl IndexError)"

text \<open>
  The characters \<open>str.strip()\<close> removes: the code points below 256 for which
  \<open>str.isspace\<close> holds (tab, line feed, vertical tab, form feed, carriage return, the
  four separators 28..31, space, NEL and the no-break space).
\<close>

definition is_space :: "char \<Rightarrow> bool" where
  "is_space c = ((of_char c :: nat) \<in> {9, 10, 11, 12, 13, 28, 29, 30, 31, 32, 133, 160})"

definition py_strip :: "string \<Rightarrow> string" where
  "py_strip s = rev (dropWhile is_space (rev (dropWhile is_space s)))"

text \<open>\<open>sep.join(parts)\<close>\<close>

fun py_join :: "string \<Rightarrow> string list \<Rightarrow> string" where
  "py_join sep [] = []"
| "py_join sep [x] = x"
| "py_join sep (x # y # ys) = x @ sep @ py_join sep (y # ys)"

section \<open>Floating point numbers\<close>

text \<open>
  A finite binary floating point number is given by its value, a rational; the sign of a
  zero is not kept.  \<open>float_round p emin\<close> rounds a rational to the nearest number with
  \<open>p\<close> significant bits and least exponent \<open>emin\<close>, halves to the even neighbour, as
  IEEE 754 does: \<open>p = 24\<close>, \<open>emin = -126\<close> is float32 and \<open>p = 53\<close>, \<open>emin = -1022\<close>
  is the Python float.
\<close>

function ilog2 :: "int \<Rightarrow> int" where
  "ilog2 n = (if n < 2 then 0 else 1 + ilog2 (n div 2))"
  by pat_completeness auto
termination
  by (relation "measure nat") auto

declare ilog2.simps [simp del]

definition floor_log2 :: "rat \<Rightarrow> int" where
  "floor_log2 x =
     (case quotient_of x of
        (p, q) \<Rightarrow>
          (let s = ilog2 p - ilog2 q
           in if 2 powi s \<le> x then s else s - 1))"

definition round_half_even :: "rat \<Rightarrow> int" where
  "round_half_even y =
     (let f = \<lfloor>y\<rfloor>; r = y - of_int f
      in if r < 1 / 2 then f else if 1 / 2 < r then f + 1 else if even f then f else f + 1)"

definition float_round :: "int \<Rightarrow> int \<Rightarrow> rat \<Rightarrow> rat" where
  "float_round p emin x =
     (if x = 0 then 0
      else
        (let e = max emin (floor_log2 \<bar>x\<bar>);
             q = 2 powi (e - p + 1)
         in sgn x * of_int (round_half_even (\<bar>x\<bar> / q)) * q))"

text \<open>
  The Python float (a double) nearest to a rational.  No value that the sources compute
  from a float32 distance leaves the range of the doubles.
\<close>

definition float64 :: "rat \<Rightarrow> rat" where
  "float64 x = float_round 53 (- 1022) x"

text \<open>
  A float32 is finite, an infinity or NaN.  \<open>astype_float32\<close> is the conversion
  \<open>.astype('float32')\<close> of a finite Python number: what rounds beyond the largest
  float32 becomes an infinity.
\<close>

definition FLT_MAX :: rat where
  "FLT_MAX = 340282346638528859811704183484516925440"

datatype f32 = Finite rat | PosInf | NegInf | NaN

definition astype_float32 :: "rat \<Rightarrow> f32" where
  "astype_float32 x =
     (let y = float_round 24 (- 126) x
      in if FLT_MAX < y then PosInf else if y < - FLT_MAX then NegInf else Finite y)"

text \<open>The float32 operations \<open>-x\<close>, \<open>x + y\<close>, \<open>x - y\<close> and \<open>x * y\<close>.\<close>

fun f32_neg :: "f32 \<Rightarrow> f32" where
  "f32_neg (Finite a) = Finite (- a)"
| "f32_neg PosInf = NegInf"
| "f32_neg NegInf = PosInf"
| "f32_neg NaN = NaN"

fun f32_add :: "f32 \<Rightarrow> f32 \<Rightarrow> f32" where
  "f32_add (Finite a) (Finite b) = astype_float32 (a + b)"
| "f32_add NaN y = NaN"
| "f32_add x NaN = NaN"
| "f32_add PosInf NegInf = NaN"
| "f32_add NegInf PosInf = NaN"
| "f32_add PosInf y = PosInf"
| "f32_add x PosInf = PosInf"
| "f32_add NegInf y = NegInf"
| "f32_add x NegInf = NegInf"

definition f32_sub :: "f32 \<Rightarrow> f32 \<Rightarrow> f32" where
  "f32_sub x y = f32_add x (f32_neg y)"

fun f32_sign :: "f32 \<Rightarrow> rat" where
  "f32_sign (Finite a) = sgn a"
| "f32_sign PosInf = 1"
| "f32_sign NegInf = - 1"
| "f32_sign NaN = 0"

fun f32_mul :: "f32 \<Rightarrow> f32 \<Rightarrow> f32" where
  "f32_mul (Finite a) (Finite b) = astype_float32 (a * b)"
| "f32_mul NaN y = NaN"
| "f32_mul x NaN = NaN"
| "f32_mul x y =
     (if f32_sign x * f32_sign y = 0 then NaN
      else if 0 < f32_sign x * f32_sign y then PosInf else NegInf)"

section \<open>utils/chunker.py\<close>

text \<open>
  The \<open>while\<close> loop of \<open>chunk_text\<close>, with its two loop variables \<open>chunks\<close> and
  \<open>start\<close>.  The loop has no bound of its own, so the model is a partial function: the
  value \<open>None\<close> is a run that never returns.  Python integers are unbounded, hence \<open>int\<close>.
\<close>

partial_function (option) chunk_loop ::
  "string \<Rightarrow> int \<Rightarrow> int \<Rightarrow> string list \<Rightarrow> int \<Rightarrow> string list option" where
  "chunk_loop text chunk_size overlap chunks start =
     (if start < int (length text) then
        (let endp = start + chunk_size;
             chunk = py_slice text start endp
         in chunk_loop text chunk_size overlap
              (if py_strip chunk \<noteq> [] then chunks @ [chunk] else chunks)
              (start + (chunk_size - overlap)))
      else Some chunks)"

declare chunk_loop.simps [code]

definition chunk_text :: "string \<Rightarrow> int \<Rightarrow> int \<Rightarrow> string list option" where
  "chunk_text text chunk_size overlap = chunk_loop text chunk_size overlap [] 0"


text \<open>
  The description of the chunker in the specification (section 4.1), kept apart from the
  loop above: candidate window number \<open>i\<close> starts at offset \<open>i * (chunk_size - overlap)\<close>,
  there is one window for every offset below the text length, and the windows without a
  non-whitespace character are dropped.
\<close>

definition spec_num_windows :: "nat \<Rightarrow> int \<Rightarrow> nat" where
  "spec_num_windows n stride = nat ((int n + stride - 1) div stride)"

definition spec_window :: "string \<Rightarrow> int \<Rightarrow> int \<Rightarrow> nat \<Rightarrow> string" where
  "spec_window text chunk_size overlap i =
     py_slice text (int i * (chunk_size - overlap)) (int i * (chunk_size - overlap) + chunk_size)"

definition spec_chunks :: "string \<Rightarrow> int \<Rightarrow> int \<Rightarrow> string list" where
  "spec_chunks text chunk_size overlap =
     filter (\<lambda>c. py_strip c \<noteq> [])
       (map (spec_window text chunk_size overlap)
          [0..<spec_num_windows (length text) (chunk_size - overlap)])"

section \<open>The flat L2 index of the FAISS library\<close>

text \<open>
  \<open>faiss.IndexFlatL2\<close> is a library class, used by both store classes.  It is modelled
  by what the library does.

  \<open>add\<close> takes an \<open>n \<times> d\<close> array (the unpacking \<open>n, d = x.shape\<close> raises ValueError on
  anything else, and \<open>assert d == self.d\<close> guards the dimension) and stores its rows,
  which are float32.  An array is given by the list of its rows, as \<open>np.array\<close> builds it
  from a list of lists: the list without rows is the array of shape \<open>(0,)\<close>, and rows of
  different lengths make no array (ValueError).

  \<open>search\<close> asserts the dimension and \<open>k > 0\<close>.  It computes the squared L2 distance of
  the query to every stored vector, in float32, and offers each distance with its position
  to a result heap of \<open>k\<close> slots.  The heap starts out with the largest float32 as distance
  and \<open>-1\<close> as position in every slot, and takes a distance only if it is smaller than
  the largest distance it holds: a stored vector enters only with a distance below
  \<open>FLT_MAX\<close>, so not with an infinite one or NaN.  The result has \<open>k\<close> slots, nearest
  first; the slots that no vector has entered keep \<open>FLT_MAX\<close> and \<open>-1\<close>.  Ties are ordered
  by stored position.  The result arrays of shape \<open>(1, k)\<close> are modelled by their only
  row; its distances are finite.

  How the sum of the squares is rounded depends on the build of the library (the order
  in which vectorised code adds).  The distance function is therefore a parameter,
  \<open>fvec_L2sqr\<close>, of every function that searches.  \<open>fvec_L2sqr_ref\<close> is the reference
  implementation of the library, which adds the squares from left to right.
\<close>

text \<open>An embedding or a query in Python: a list of finite floats, given by their values.\<close>

type_synonym vec = "rat list"

record IndexFlatL2 =
  ix_d :: nat
  ix_xb :: "f32 list list"

definition IndexFlatL2_new :: "nat \<Rightarrow> IndexFlatL2" where
  "IndexFlatL2_new d = \<lparr>ix_d = d, ix_xb = []\<rparr>"



definition fvec_L2sqr_ref :: "f32 list \<Rightarrow> f32 list \<Rightarrow> f32" where
  "fvec_L2sqr_ref x y =
     foldl (\<lambda>res (a, b). f32_add res (f32_mul (f32_sub a b) (f32_sub a b))) (Finite 0) (zip x y)"

text \<open>The distance as the fresh result heap takes it: a finite value below \<open>FLT_MAX\<close>.\<close>

definition below_max :: "f32 \<Rightarrow> rat option" where
  "below_max dis = (case dis of Finite v \<Rightarrow> if v < FLT_MAX then Some v else None | _ \<Rightarrow> None)"

definition index_search ::
  "(f32 list \<Rightarrow> f32 list \<Rightarrow> f32) \<Rightarrow> IndexFlatL2 \<Rightarrow> f32 list \<Rightarrow> int \<Rightarrow>
     error + (rat list \<times> int list)" where
  "index_search fvec_L2sqr ix x k =
     (if length x \<noteq> ix_d ix then Inl AssertionError
      else if k \<le> 0 then Inl AssertionError
      else
        (let entered =
               List.map_filter
                 (\<lambda>j. map_option (\<lambda>v. (v, int j)) (below_max (fvec_L2sqr x (ix_xb ix ! j))))
                 [0..<length (ix_xb ix)];
             hits = take (nat k) (sort_key fst entered);
             slots = hits @ replicate (nat k - length hits) (FLT_MAX, - 1)
         in Inr (map fst slots, map snd slots)))"

section \<open>Metadata records\<close>

text \<open>
  A metadata record is a Python dict with string keys, kept as an association list in
  insertion order; \<open>AList.update\<close> is the assignment \<open>d[k] = v\<close> (it replaces a present
  key in place and appends a new one).
\<close>

datatype pyval = Str string | Num rat

type_synonym dict = "(string \<times> pyval) list"

definition dict_get :: "dict \<Rightarrow> string \<Rightarrow> pyval \<Rightarrow> pyval" where
  "dict_get d k dflt = (case map_of d k of None \<Rightarrow> dflt | Some v \<Rightarrow> v)"

section \<open>vector\_store/faiss\_db.py\<close>

record FAISSVectorStore =
  fv_dimension :: nat
  fv_index :: IndexFlatL2
  fv_chunks :: "string list"
  fv_metadata :: "dict list"

definition FAISSVectorStore_init :: "nat \<Rightarrow> FAISSVectorStore" where
  "FAISSVectorStore_init dimension =
     \<lparr>fv_dimension = dimension, fv_index = IndexFlatL2_new dimension,
      fv_chunks = [], fv_metadata = []\<rparr>"


definition FAISSVectorStore_search ::
  "(f32 list \<Rightarrow> f32 list \<Rightarrow> f32) \<Rightarrow> FAISSVectorStore \<Rightarrow> vec \<Rightarrow> int \<Rightarrow>
     error + (rat list \<times> int list)" where
  "FAISSVectorStore_search fvec_L2sqr self query_embedding k =
     index_search fvec_L2sqr (fv_index self) (map astype_float32 query_embedding) k"

definition get_total_chunks :: "FAISSVectorStore \<Rightarrow> nat" where
  "get_total_chunks self = length (fv_chunks self)"



section \<open>vector\_store/\_\_init\_\_.py\<close>

text \<open>
  \<open>VectorStore\<close> keeps its index and metadata on disk and hands out dict objects, so the
  model has a world: the files, as an association list from path to content, and the heap
  of dict objects, where an address is a position in the list and allocation appends.
  \<open>self.metadata\<close> is a list of addresses.  A directory is an entry of the files with
  the content \<open>Directory\<close>; the current directory (the empty path) and the root always
  exist.  Paths are compared as strings.
\<close>

datatype file_content = IndexFile IndexFlatL2 | PickleFile "dict list" | OtherFile | Directory

record world =
  w_fs :: "(string \<times> file_content) list"
  w_heap :: "dict list"

record VectorStore =
  vs_dimension :: nat
  vs_index_file :: string
  vs_metadata_file :: string
  vs_index :: "IndexFlatL2 option"
  vs_metadata :: "nat list"










text \<open>
  The loop of \<open>search\<close> over \<open>enumerate(indices[0])\<close>; \<open>distances[0][i]\<close> is the head of
  the distance list, which moves in step with the index list.  \<open>.copy()\<close> allocates a new
  dict with the entries of the stored one, and the assignment of \<open>'distance'\<close> writes to
  the new dict.
\<close>

fun search_loop ::
  "VectorStore \<Rightarrow> dict list \<Rightarrow> rat list \<Rightarrow> int list \<Rightarrow> nat list \<Rightarrow> (error + nat list) \<times> dict list" where
  "search_loop self heap distances [] results = (Inr results, heap)"
| "search_loop self heap distances (idx # indices) results =
     (if idx < int (length (vs_metadata self)) then
        (case py_get (vs_metadata self) idx of
           Inl e \<Rightarrow> (Inl e, heap)
         | Inr a \<Rightarrow>
             (let result = length heap;
                  heap1 = heap @ [heap ! a]
              in case distances of
                   [] \<Rightarrow> (Inl IndexError, heap1)
                 | distance # distances' \<Rightarrow>
                     search_loop self
                       (heap1[result := AList.update ''distance'' (Num distance) (heap1 ! result)])
                       distances' indices (results @ [result])))
      else search_loop self heap (tl distances) indices results)"

definition VectorStore_search ::
  "(f32 list \<Rightarrow> f32 list \<Rightarrow> f32) \<Rightarrow> world \<Rightarrow> VectorStore \<Rightarrow> vec \<Rightarrow> int \<Rightarrow>
     (error + nat list) \<times> VectorStore \<times> world" where
  "VectorStore_search fvec_L2sqr w self query_vector k =
     (case vs_index self of
        None \<Rightarrow> (Inl AttributeError, self, w)
      | Some ix \<Rightarrow>
          (case index_search fvec_L2sqr ix (map astype_float32 query_vector) k of
             Inl e \<Rightarrow> (Inl e, self, w)
           | Inr (distances, indices) \<Rightarrow>
               (case search_loop self (w_heap w) distances indices [] of
                  (r, heap') \<Rightarrow> (r, self, w\<lparr>w_heap := heap'\<rparr>))))"


section \<open>models/llm.py\<close>

text \<open>
  The text2text pipeline held in \<open>self.generator\<close> is the generation collaborator: a
  function from the prompt to a list of dicts, or an exception; \<open>None\<close> when loading the
  model failed.  Calls to the collaborators are recorded, in order.
\<close>

datatype port_call = EmbedQuery string | Generate string

type_synonym generator = "string \<Rightarrow> error + dict list"

definition newline :: string where
  "newline = [CHR 0x0A]"

definition build_prompt :: "string \<Rightarrow> string \<Rightarrow> string" where
  "build_prompt question context =
     ''Answer the following question based only on the context provided.'' @ newline @ newline
     @ ''Context: '' @ take 1500 context @ newline @ newline
     @ ''Question: '' @ question @ newline @ newline
     @ ''Provide a clear, concise answer based on the context above.''"

text \<open>\<open>result[0]['generated_text'].strip()\<close>\<close>

definition generated_text :: "dict list \<Rightarrow> error + string" where
  "generated_text result =
     (case result of
        [] \<Rightarrow> Inl IndexError
      | r # _ \<Rightarrow>
          (case map_of r ''generated_text'' of
             None \<Rightarrow> Inl KeyError
           | Some (Str t) \<Rightarrow> Inr (py_strip t)
           | Some (Num x) \<Rightarrow> Inl AttributeError))"

definition generate_answer ::
  "generator option \<Rightarrow> string \<Rightarrow> string \<Rightarrow> (error + string) \<times> port_call list" where
  "generate_answer gen question context =
     (case gen of
        None \<Rightarrow> (Inr (''LLM not available. Retrieved context: '' @ take 500 context), [])
      | Some g \<Rightarrow>
          (let prompt = build_prompt question context;
               body = (case g prompt of Inl e \<Rightarrow> Inl e | Inr result \<Rightarrow> generated_text result)
           in (case body of
                 Inr answer \<Rightarrow> Inr answer
               | Inl e \<Rightarrow> Inr (''Error generating answer. Retrieved context: '' @ take 500 context),
               [Generate prompt])))"

section \<open>main.py\<close>

text \<open>
  \<open>round(x, 3)\<close> of a Python float: the value of the float is rounded to three decimal
  places, halves to the even neighbour, and the result is the float nearest to that
  decimal.
\<close>

definition py_round3 :: "rat \<Rightarrow> rat" where
  "py_round3 x = float64 (of_int (round_half_even (float64 x * 1000)) / 1000)"

text \<open>
  The loop of \<open>query_documents\<close> over \<open>enumerate(indices[0])\<close> (lines 161 to 169), with
  its three result lists; \<open>distances[0][i]\<close> is the head of the distance list.  The sum
  \<open>1 + float(d)\<close> and the quotient are operations on Python floats.
\<close>

fun retrieve_loop ::
  "FAISSVectorStore \<Rightarrow> rat list \<Rightarrow> int list \<Rightarrow> string list \<times> pyval list \<times> rat list \<Rightarrow>
     error + (string list \<times> pyval list \<times> rat list)" where
  "retrieve_loop vector_store distances [] acc = Inr acc"
| "retrieve_loop vector_store distances (idx # indices) (retrieved_chunks, sources, similarity_scores) =
     (if idx < int (length (fv_chunks vector_store)) then
        (case py_get (fv_chunks vector_store) idx of
           Inl e \<Rightarrow> Inl e
         | Inr chunk \<Rightarrow>
             (case py_get (fv_metadata vector_store) idx of
                Inl e \<Rightarrow> Inl e
              | Inr md \<Rightarrow>
                  (case distances of
                     [] \<Rightarrow> Inl IndexError
                   | distance # distances' \<Rightarrow>
                       if float64 (1 + distance) = 0 then Inl ZeroDivisionError
                       else retrieve_loop vector_store distances' indices
                              (retrieved_chunks @ [chunk],
                               sources @ [dict_get md ''source'' (Str ''unknown'')],
                               similarity_scores
                                 @ [py_round3 (float64 (1 / float64 (1 + distance)))]))))
      else retrieve_loop vector_store (tl distances) indices
             (retrieved_chunks, sources, similarity_scores))"

record response =
  r_question :: string
  r_answer :: string
  r_sources :: "pyval list"
  r_similarity_scores :: "rat list"
  r_num_chunks_retrieved :: "nat option"

datatype http_error = HTTPException nat error

text \<open>
  \<open>query_documents\<close>, after the rate limiter has let the request through.  The embedder
  and the generator are parameters, as is the distance function of the index; the second
  component of the result lists the calls made to embedder and generator.  Every
  exception of the body becomes an HTTP 500.
\<close>

definition query_documents ::
  "(f32 list \<Rightarrow> f32 list \<Rightarrow> f32) \<Rightarrow> (string \<Rightarrow> error + vec) \<Rightarrow> generator option \<Rightarrow>
     FAISSVectorStore \<Rightarrow> string \<Rightarrow> (http_error + response) \<times> port_call list" where
  "query_documents fvec_L2sqr embed_query gen vector_store question =
     (if get_total_chunks vector_store = 0 then
        (Inr \<lparr>r_question = question,
              r_answer = ''No documents uploaded yet. Please upload documents first.'',
              r_sources = [], r_similarity_scores = [], r_num_chunks_retrieved = None\<rparr>,
         [])
      else
        (case embed_query question of
           Inl e \<Rightarrow> (Inl (HTTPException 500 e), [EmbedQuery question])
         | Inr question_embedding \<Rightarrow>
             (case FAISSVectorStore_search fvec_L2sqr vector_store question_embedding 3 of
                Inl e \<Rightarrow> (Inl (HTTPException 500 e), [EmbedQuery question])
              | Inr (distances, indices) \<Rightarrow>
                  (case retrieve_loop vector_store distances indices ([], [], []) of
                     Inl e \<Rightarrow> (Inl (HTTPException 500 e), [EmbedQuery question])
                   | Inr (retrieved_chunks, sources, similarity_scores) \<Rightarrow>
                       (let context = py_join (newline @ newline) retrieved_chunks
                        in case generate_answer gen question context of
                             (Inl e, calls) \<Rightarrow> (Inl (HTTPException 500 e), EmbedQuery question # calls)
                           | (Inr answer, calls) \<Rightarrow>
                               (Inr \<lparr>r_question = question, r_answer = answer,
                                     r_sources = sources,
                                     r_similarity_scores = similarity_scores,
                                     r_num_chunks_retrieved = Some (length retrieved_chunks)\<rparr>,
                                EmbedQuery question # calls))))))"

section \<open>Properties of the chunker\<close>

text \<open>A run of the loop that returns did not start with a non-positive stride at or
  before offset 0 of a non-empty text.\<close>

lemma chunk_loop_returns_only_if:
  assumes "chunk_loop text chunk_size overlap chunks start = Some r"
  shows "\<not> (chunk_size \<le> overlap \<and> start \<le> 0 \<and> text \<noteq> [])"
proof (rule chunk_loop.raw_induct
    [where P = "\<lambda>t c v ch st r. \<not> (c \<le> v \<and> st \<le> 0 \<and> t \<noteq> [])", OF _ assms], goal_cases)
  case (1 f t c v ch st r)
  show ?case
  proof
    assume a: "c \<le> v \<and> st \<le> 0 \<and> t \<noteq> []"
    then have lt: "st < int (length t)" by (cases t) auto
    from a have nx: "st + (c - v) \<le> 0" by simp
    from 1(2) lt have "f t c v
              (if py_strip (py_slice t st (st + c)) \<noteq> [] then ch @ [py_slice t st (st + c)] else ch)
              (st + (c - v)) = Some r"
      by (simp add: Let_def)
    from 1(1)[OF this] a nx show False by simp
  qed
qed

lemma chunk_loop_nonpositive_stride:
  "chunk_size \<le> overlap \<Longrightarrow> start \<le> 0 \<Longrightarrow> text \<noteq> [] \<Longrightarrow>
     chunk_loop text chunk_size overlap chunks start = None"
  using chunk_loop_returns_only_if [of "text" chunk_size overlap chunks start]
  by (cases "chunk_loop text chunk_size overlap chunks start") auto

lemma ceil_div_le0:
  fixes s x :: int
  assumes "0 < s" "(x + s - 1) div s \<le> 0"
  shows "x \<le> 0"
proof (rule ccontr)
  assume "\<not> x \<le> 0"
  then have "s \<le> x + s - 1" by simp
  then have "s div s \<le> (x + s - 1) div s" using assms(1) by (intro zdiv_mono1) auto
  then show False using assms by simp
qed

lemma ceil_div_pos:
  fixes s x :: int
  assumes "0 < s" "0 < (x + s - 1) div s"
  shows "0 < x"
proof (rule ccontr)
  assume "\<not> 0 < x"
  then have "x + s - 1 < s" by simp
  then have "(x + s - 1) div s \<le> 0"
    using assms(1) by (cases "0 \<le> x + s - 1") (simp_all add: div_pos_pos_trivial pos_imp_zdiv_neg_iff less_imp_le)
  with assms(2) show False by simp
qed

lemma ceil_div_step:
  fixes s x :: int
  assumes "0 < s"
  shows "(x - s + s - 1) div s = (x + s - 1) div s - 1"
proof -
  have "x + s - 1 = (x - s + s - 1) + s" by simp
  then have "(x + s - 1) div s = (x - s + s - 1) div s + 1"
    using assms by (metis div_add_self2 less_irrefl)
  then show ?thesis by simp
qed


lemma chunk_loop_positive_stride:
  assumes "overlap < chunk_size"
  shows "n = nat ((int (length text) - start + (chunk_size - overlap) - 1) div (chunk_size - overlap)) \<Longrightarrow>
     chunk_loop text chunk_size overlap chunks start =
       Some (chunks @ filter (\<lambda>c. py_strip c \<noteq> [])
          (map (\<lambda>i. py_slice text (start + int i * (chunk_size - overlap)) (start + int i * (chunk_size - overlap) + chunk_size)) [0..<n]))"
proof (induction n arbitrary: start chunks)
  case 0
  define s where "s = chunk_size - overlap"
  have sp: "0 < s" using assms by (simp add: s_def)
  from 0 have "(int (length text) - start + s - 1) div s \<le> 0" by (simp add: s_def)
  from ceil_div_le0 [OF sp this] have "\<not> start < int (length text)" by simp
  then show ?case by (subst chunk_loop.simps) simp
next
  case (Suc n)
  define s where "s = chunk_size - overlap"
  have sp: "0 < s" using assms by (simp add: s_def)
  from Suc.prems have pos: "0 < (int (length text) - start + s - 1) div s" by (simp add: s_def)
  from ceil_div_pos [OF sp this] have lt: "start < int (length text)" by simp
  have "(int (length text) - (start + s) + s - 1) div s = (int (length text) - start + s - 1) div s - 1"
    using ceil_div_step [OF sp, of "int (length text) - start"] by (simp add: algebra_simps)
  then have n: "n = nat ((int (length text) - (start + (chunk_size - overlap)) + (chunk_size - overlap) - 1) div (chunk_size - overlap))"
    using Suc.prems by (simp add: s_def)
  have up: "[0..<Suc n] = 0 # map Suc [0..<n]"
    by (simp add: upt_conv_Cons map_Suc_upt del: upt_Suc)
  show ?case
    apply (subst chunk_loop.simps)
    apply (simp only: lt if_True Let_def)
    apply (subst Suc.IH [OF n])
    apply (simp only: up)
    apply (simp add: o_def algebra_simps del: upt_Suc)
    done
qed


lemma chunk_text_positive_stride:
  "overlap < chunk_size \<Longrightarrow> chunk_text doc chunk_size overlap = Some (spec_chunks doc chunk_size overlap)"
  unfolding chunk_text_def spec_chunks_def spec_num_windows_def
  by (subst chunk_loop_positive_stride [where n = "nat ((int (length doc) + (chunk_size - overlap) - 1) div (chunk_size - overlap))"])
     (simp_all add: spec_window_def [abs_def])

lemma spec_num_windows_iff:
  assumes "0 < s"
  shows "i < spec_num_windows n s \<longleftrightarrow> int i * s < int n"
proof -
  define k where "k = nat s"
  have k: "0 < k" "s = int k" using assms by (simp_all add: k_def)
  have "int n + s - 1 = int (n + k - 1)" using k by (simp add: of_nat_diff)
  then have "spec_num_windows n s = nat (int (n + k - 1) div int k)"
    by (simp only: spec_num_windows_def k(2))
  then have "spec_num_windows n s = (n + k - 1) div k"
    by (simp only: zdiv_int [symmetric] nat_int)
  moreover have "i < (n + k - 1) div k \<longleftrightarrow> i * k < n"
  proof -
    have "(n + k - 1) div k < Suc i \<longleftrightarrow> n + k - 1 < Suc i * k"
      using k(1) by (rule div_less_iff_less_mult)
    then show ?thesis using k(1) by auto
  qed
  moreover have "int i * s < int n \<longleftrightarrow> i * k < n"
    by (simp add: k(2) flip: of_nat_mult)
  ultimately show ?thesis by simp
qed

lemma py_slice_nonneg:
  "0 \<le> a \<Longrightarrow> a \<le> b \<Longrightarrow> py_slice xs a b = take (nat b - nat a) (drop (nat a) xs)"
  by (auto simp: py_slice_def py_clip_def Let_def min_def max_def)

lemma py_slice_length_le:
  "0 \<le> a \<Longrightarrow> 0 \<le> c \<Longrightarrow> length (py_slice xs a (a + c)) \<le> nat c"
  by (simp add: py_slice_nonneg) 


lemma spec_window_length:
  "0 < chunk_size \<Longrightarrow> overlap < chunk_size \<Longrightarrow> length (spec_window doc chunk_size overlap i) \<le> nat chunk_size"
  unfolding spec_window_def by (rule py_slice_length_le) simp_all

lemma spec_window_overlap:
  assumes "0 < overlap" "overlap < chunk_size"
    and "length (spec_window doc chunk_size overlap i) = nat chunk_size"
  shows "drop (nat (chunk_size - overlap)) (spec_window doc chunk_size overlap i) =
           take (nat overlap) (spec_window doc chunk_size overlap (Suc i))
         \<and> length (take (nat overlap) (spec_window doc chunk_size overlap (Suc i))) = nat overlap"
proof -
  define s where "s = nat (chunk_size - overlap)"
  define c where "c = nat chunk_size"
  define v where "v = nat overlap"
  have cv: "c = s + v" "0 < s" "0 < v" using assms by (simp_all add: s_def c_def v_def)
  have w: "spec_window doc chunk_size overlap j = take c (drop (j * s) doc)" for j
  proof -
    have "int j * (chunk_size - overlap) = int (j * s)" using assms by (simp add: s_def)
    moreover have "int j * (chunk_size - overlap) + chunk_size = int (j * s + c)" using assms by (simp add: s_def c_def)
    ultimately show ?thesis unfolding spec_window_def by (simp add: py_slice_nonneg del: of_nat_mult of_nat_add)
  qed
  from assms(3) have "min (length doc - i * s) c = c" unfolding w c_def [symmetric] by simp
  then have len: "i * s + c \<le> length doc" using cv by (simp add: min_def split: if_splits)
  have "drop s (take c (drop (i * s) doc)) = take v (drop (Suc i * s) doc)"
    by (simp add: drop_take cv(1) add.commute)
  moreover have "take v (take c (drop (Suc i * s) doc)) = take v (drop (Suc i * s) doc)"
    using cv by (simp add: min_def)
  moreover have "length (take v (drop (Suc i * s) doc)) = v"
    using len cv by simp
  ultimately show ?thesis unfolding w s_def [symmetric] v_def [symmetric] by simp
qed

lemma spec_window_position:
  assumes "0 < overlap" and "overlap < chunk_size"
  shows "spec_window doc chunk_size overlap i
           = take (nat chunk_size) (drop (i * nat (chunk_size - overlap)) doc)"
proof -
  have "int i * (chunk_size - overlap) = int (i * nat (chunk_size - overlap))"
    using assms by simp
  moreover have "int i * (chunk_size - overlap) + chunk_size
                   = int (i * nat (chunk_size - overlap) + nat chunk_size)"
    using assms by simp
  ultimately show ?thesis
    unfolding spec_window_def by (simp add: py_slice_nonneg del: of_nat_mult of_nat_add)
qed

text \<open>
  Claim C3, as the code has it.  With \<open>overlap < chunk_size\<close> the call returns: the start
  offset runs through \<open>0, stride, 2 * stride, ...\<close> for as long as it is below the text
  length, and the result is the list of the non-blank windows at these offsets.  With
  \<open>chunk_size \<le> overlap\<close> nothing is validated and no error is raised: the call returns
  (the empty list) on the empty text only, and does not return on any other text.
\<close>

theorem chunk_text_stride_termination:
  "(overlap < chunk_size \<longrightarrow>
      chunk_text doc chunk_size overlap = Some (spec_chunks doc chunk_size overlap)
      \<and> (\<forall>i. i < spec_num_windows (length doc) (chunk_size - overlap)
                \<longleftrightarrow> int i * (chunk_size - overlap) < int (length doc)))
   \<and> (chunk_size \<le> overlap \<longrightarrow>
      chunk_text doc chunk_size overlap = (if doc = [] then Some [] else None))"
proof (intro conjI impI allI)
  assume "overlap < chunk_size"
  then show "chunk_text doc chunk_size overlap = Some (spec_chunks doc chunk_size overlap)"
    by (rule chunk_text_positive_stride)
next
  fix i
  assume "overlap < chunk_size"
  then have "0 < chunk_size - overlap" by simp
  then show "i < spec_num_windows (length doc) (chunk_size - overlap)
               \<longleftrightarrow> int i * (chunk_size - overlap) < int (length doc)"
    by (rule spec_num_windows_iff)
next
  assume le: "chunk_size \<le> overlap"
  show "chunk_text doc chunk_size overlap = (if doc = [] then Some [] else None)"
  proof (cases "doc = []")
    case True
    then show ?thesis
      unfolding chunk_text_def by (subst chunk_loop.simps) simp
  next
    case False
    with le show ?thesis
      unfolding chunk_text_def by (simp add: chunk_loop_nonpositive_stride)
  qed
qed

theorem chunk_text_stride_termination_witness:
  "(3::int) < 4
   \<and> chunk_text ''abcdef'' 4 3 = Some [''abcd'', ''bcde'', ''cdef'', ''def'', ''ef'', ''f'']
   \<and> (2::int) \<le> 2 \<and> chunk_text [] 2 2 = Some []"
proof -
  have "spec_chunks ''abcdef'' 4 3 = [''abcd'', ''bcde'', ''cdef'', ''def'', ''ef'', ''f'']"
    by code_simp
  then show ?thesis
    using chunk_text_stride_termination [where doc = "''abcdef''" and chunk_size = 4 and overlap = 3]
      chunk_text_stride_termination [where doc = "[]" and chunk_size = 2 and overlap = 2]
    by simp
qed

text \<open>
  Claim C3 as stated fails: with \<open>chunk_size = overlap = 1\<close> the call on a text of one
  space raises nothing and never returns (the start offset stays 0 and no chunk is ever
  appended); on the text \<open>a\<close> it does not return either.
\<close>

theorem chunk_text_nonpositive_stride_counterexample:
  "chunk_text '' '' 1 1 = None \<and> chunk_text ''a'' 1 1 = None"
  unfolding chunk_text_def by (simp add: chunk_loop_nonpositive_stride)

text \<open>
  Claim C4, as the code has it.  For \<open>0 < overlap < chunk_size\<close> the call returns the
  candidate windows in the order of their offsets, the blank ones left out; window \<open>i\<close> is
  the piece of the text of at most \<open>chunk_size\<close> characters that starts at offset
  \<open>i * (chunk_size - overlap)\<close>; no returned chunk is longer than \<open>chunk_size\<close>; and a
  candidate window of full length shares exactly its last \<open>overlap\<close> characters with the
  next candidate window.
\<close>

theorem chunk_text_windows:
  assumes "0 < overlap" and "overlap < chunk_size"
  shows "\<exists>chunks. chunk_text doc chunk_size overlap = Some chunks
     \<and> chunks = filter (\<lambda>c. py_strip c \<noteq> [])
                  (map (spec_window doc chunk_size overlap)
                     [0..<spec_num_windows (length doc) (chunk_size - overlap)])
     \<and> (\<forall>c \<in> set chunks. int (length c) \<le> chunk_size)
     \<and> (\<forall>i. spec_window doc chunk_size overlap i
               = take (nat chunk_size) (drop (i * nat (chunk_size - overlap)) doc))
     \<and> (\<forall>i. length (spec_window doc chunk_size overlap i) = nat chunk_size \<longrightarrow>
            drop (nat (chunk_size - overlap)) (spec_window doc chunk_size overlap i)
              = take (nat overlap) (spec_window doc chunk_size overlap (Suc i))
            \<and> length (take (nat overlap) (spec_window doc chunk_size overlap (Suc i)))
              = nat overlap)"
proof -
  have ret: "chunk_text doc chunk_size overlap = Some (spec_chunks doc chunk_size overlap)"
    using assms(2) by (rule chunk_text_positive_stride)
  have len: "int (length c) \<le> chunk_size" if "c \<in> set (spec_chunks doc chunk_size overlap)" for c
  proof -
    from that obtain i where "c = spec_window doc chunk_size overlap i"
      by (auto simp: spec_chunks_def)
    then show ?thesis
      using spec_window_length [of chunk_size overlap doc i] assms by simp
  qed
  have pos: "spec_window doc chunk_size overlap i
               = take (nat chunk_size) (drop (i * nat (chunk_size - overlap)) doc)" for i
    using assms by (rule spec_window_position)
  have ov: "length (spec_window doc chunk_size overlap i) = nat chunk_size \<longrightarrow>
            drop (nat (chunk_size - overlap)) (spec_window doc chunk_size overlap i)
              = take (nat overlap) (spec_window doc chunk_size overlap (Suc i))
            \<and> length (take (nat overlap) (spec_window doc chunk_size overlap (Suc i)))
              = nat overlap" for i
    using spec_window_overlap [OF assms] by blast
  show ?thesis
  proof (intro exI conjI)
    show "chunk_text doc chunk_size overlap = Some (spec_chunks doc chunk_size overlap)"
      by (rule ret)
    show "spec_chunks doc chunk_size overlap = filter (\<lambda>c. py_strip c \<noteq> [])
                  (map (spec_window doc chunk_size overlap)
                     [0..<spec_num_windows (length doc) (chunk_size - overlap)])"
      by (simp add: spec_chunks_def)
    show "\<forall>c \<in> set (spec_chunks doc chunk_size overlap). int (length c) \<le> chunk_size"
      using len by blast
    show "\<forall>i. spec_window doc chunk_size overlap i
               = take (nat chunk_size) (drop (i * nat (chunk_size - overlap)) doc)"
      using pos by blast
    show "\<forall>i. length (spec_window doc chunk_size overlap i) = nat chunk_size \<longrightarrow>
            drop (nat (chunk_size - overlap)) (spec_window doc chunk_size overlap i)
              = take (nat overlap) (spec_window doc chunk_size overlap (Suc i))
            \<and> length (take (nat overlap) (spec_window doc chunk_size overlap (Suc i)))
              = nat overlap"
      using ov by blast
  qed
qed

theorem chunk_text_windows_witness:
  "(0::int) < 1 \<and> (1::int) < 3
   \<and> chunk_text ''abcdef'' 3 1 = Some [''abc'', ''cde'', ''ef'']
   \<and> drop 2 ''abc'' = take 1 ''cde''"
proof -
  have w: "spec_window ''abcdef'' 3 1 0 = ''abc''" "spec_window ''abcdef'' 3 1 (Suc 0) = ''cde''"
    "filter (\<lambda>c. py_strip c \<noteq> [])
       (map (spec_window ''abcdef'' 3 1) [0..<spec_num_windows (length ''abcdef'') (3 - 1)])
       = [''abc'', ''cde'', ''ef'']"
    by code_simp+
  from chunk_text_windows [where doc = "''abcdef''" and chunk_size = 3 and overlap = 1]
  have "chunk_text ''abcdef'' 3 1 = Some [''abc'', ''cde'', ''ef'']"
    unfolding w by simp
  then show ?thesis by simp
qed

text \<open>
  Claim C4 as stated fails on its overlap clause.  A blank window that is dropped leaves
  two returned neighbours that share nothing; and near the end of the text more than one
  chunk is short, so that two chunks before the last one share fewer than \<open>overlap\<close>
  characters.
\<close>

theorem chunk_text_overlap_counterexample:
  "chunk_text (''ab '' @ [CHR 0x09, CHR 0x0A] @ ''cd'') 3 1
     = Some [''ab '', [CHR 0x0A] @ ''cd'', ''d'']
   \<and> drop (length ''ab '' - 1) ''ab '' \<noteq> take 1 ([CHR 0x0A] @ ''cd'')
   \<and> chunk_text ''abcdef'' 4 3 = Some [''abcd'', ''bcde'', ''cdef'', ''def'', ''ef'', ''f'']
   \<and> drop (length ''def'' - 3) ''def'' \<noteq> take 3 ''ef''"
  by code_simp

section \<open>Properties of the index and of the two stores\<close>




















lemma search_loop_frame:
  "search_loop self h ds idxs rs = (r, h') \<Longrightarrow>
     length h \<le> length h' \<and> (\<forall>a < length h. h' ! a = h ! a)"
proof (induction self h ds idxs rs rule: search_loop.induct)
  case (1 self heap distances results)
  then show ?case by simp
next
  case (2 self heap distances idx indices results)
  show ?case
  proof (cases "idx < int (length (vs_metadata self))")
    case False
    with "2.prems" have "search_loop self heap (tl distances) indices results = (r, h')"
      by simp
    from "2.IH"(2) [OF False this] show ?thesis .
  next
    case True
    show ?thesis
    proof (cases "py_get (vs_metadata self) idx")
      case (Inl e)
      with True "2.prems" show ?thesis by simp
    next
      case (Inr a)
      show ?thesis
      proof (cases distances)
        case Nil
        with True Inr "2.prems" show ?thesis by (auto simp: Let_def nth_append)
      next
        case (Cons d ds')
        define heap1 where "heap1 = heap @ [heap ! a]"
        define heap2 where
          "heap2 = heap1[length heap := AList.update ''distance'' (Num d) (heap1 ! length heap)]"
        from True Inr Cons "2.prems"
        have run: "search_loop self heap2 ds' indices (results @ [length heap]) = (r, h')"
          by (simp add: Let_def heap1_def heap2_def)
        have "length heap2 \<le> length h' \<and> (\<forall>a < length heap2. h' ! a = heap2 ! a)"
          unfolding heap2_def heap1_def
          by (rule "2.IH"(1) [OF True Inr refl refl Cons run [unfolded heap2_def heap1_def]])
        moreover have "length heap2 = Suc (length heap)" by (simp add: heap2_def heap1_def)
        moreover have "\<forall>a < length heap. heap2 ! a = heap ! a"
          by (simp add: heap2_def heap1_def nth_append)
        ultimately show ?thesis by auto
      qed
    qed
  qed
qed

lemma py_get_in_set: "py_get xs i = Inr x \<Longrightarrow> x \<in> set xs"
  by (auto simp: py_get_def split: if_splits)

lemma search_loop_results:
  assumes "search_loop self h ds idxs rs = (Inr out, h')"
    and "\<forall>m \<in> set (vs_metadata self). m < length h0"
    and "length h0 \<le> length h"
    and "\<forall>a < length h0. h ! a = h0 ! a"
    and "\<forall>a \<in> set rs. length h0 \<le> a \<and> a < length h
           \<and> (\<exists>m \<in> set (vs_metadata self). \<exists>d. h ! a = AList.update ''distance'' (Num d) (h0 ! m))"
  shows "\<forall>a \<in> set out. length h0 \<le> a \<and> a < length h'
           \<and> (\<exists>m \<in> set (vs_metadata self). \<exists>d. h' ! a = AList.update ''distance'' (Num d) (h0 ! m))"
  using assms
proof (induction self h ds idxs rs rule: search_loop.induct)
  case (1 self heap distances results)
  then show ?case by simp
next
  case (2 self heap distances idx indices results)
  show ?case
  proof (cases "idx < int (length (vs_metadata self))")
    case False
    with "2.prems"(1) have "search_loop self heap (tl distances) indices results = (Inr out, h')"
      by simp
    from "2.IH"(2) [OF False this "2.prems"(2-5)] show ?thesis .
  next
    case True
    show ?thesis
    proof (cases "py_get (vs_metadata self) idx")
      case (Inl e)
      with True "2.prems"(1) show ?thesis by simp
    next
      case (Inr a)
      then have amem: "a \<in> set (vs_metadata self)" by (rule py_get_in_set)
      with "2.prems"(2) have a0: "a < length h0" by blast
      with "2.prems"(3,4) have ha: "heap ! a = h0 ! a" and alt: "a < length heap" by simp_all
      show ?thesis
      proof (cases distances)
        case Nil
        with True Inr "2.prems"(1) show ?thesis by (simp add: Let_def)
      next
        case (Cons d ds')
        define heap1 where "heap1 = heap @ [heap ! a]"
        define heap2 where
          "heap2 = heap1[length heap := AList.update ''distance'' (Num d) (heap1 ! length heap)]"
        from True Inr Cons "2.prems"(1)
        have run: "search_loop self heap2 ds' indices (results @ [length heap]) = (Inr out, h')"
          by (simp add: Let_def heap1_def heap2_def)
        have len2: "length heap2 = Suc (length heap)" by (simp add: heap2_def heap1_def)
        have old: "\<forall>b < length heap. heap2 ! b = heap ! b"
          by (simp add: heap2_def heap1_def nth_append)
        have new: "heap2 ! length heap = AList.update ''distance'' (Num d) (h0 ! a)"
          by (simp add: heap2_def heap1_def ha)
        have p3: "length h0 \<le> length heap2" using "2.prems"(3) len2 by simp
        have p4: "\<forall>b < length h0. heap2 ! b = h0 ! b"
          using "2.prems"(3,4) old by simp
        have p5: "\<forall>b \<in> set (results @ [length heap]). length h0 \<le> b \<and> b < length heap2
           \<and> (\<exists>m \<in> set (vs_metadata self). \<exists>d. heap2 ! b = AList.update ''distance'' (Num d) (h0 ! m))"
        proof
          fix b
          assume "b \<in> set (results @ [length heap])"
          then consider "b \<in> set results" | "b = length heap" by auto
          then show "length h0 \<le> b \<and> b < length heap2
           \<and> (\<exists>m \<in> set (vs_metadata self). \<exists>d. heap2 ! b = AList.update ''distance'' (Num d) (h0 ! m))"
          proof cases
            case 1
            with "2.prems"(5) have "length h0 \<le> b \<and> b < length heap
              \<and> (\<exists>m \<in> set (vs_metadata self). \<exists>d. heap ! b = AList.update ''distance'' (Num d) (h0 ! m))"
              by blast
            then show ?thesis using old len2 by auto
          next
            case 2
            then show ?thesis using new amem "2.prems"(3) len2 by auto
          qed
        qed
        show ?thesis
          by (rule "2.IH"(1) [OF True Inr refl refl Cons run [unfolded heap2_def heap1_def]
                "2.prems"(2) p3 [unfolded heap2_def heap1_def] p4 [unfolded heap2_def heap1_def]
                p5 [unfolded heap2_def heap1_def]])
      qed
    qed
  qed
qed








text \<open>
  Claim C5 on the code.  Both loops guard a position only by \<open>idx < len(...)\<close>.  The
  padding position \<open>-1\<close> passes this guard and, as a Python subscript, reads the last
  stored entry.  With one stored chunk and \<open>k = 3\<close> the loop of \<open>query_documents\<close>
  returns three chunks, sources and scores, two of them for padding slots; the loop of
  \<open>VectorStore.search\<close> returns three results for one stored record, and raises
  IndexError on the empty store.  On these inputs every float32 operation is exact, so
  the row of the index is the same for every order of adding the squares.
\<close>

theorem position_guard_admits_padding:
  "FAISSVectorStore_search fvec_L2sqr_ref
      \<lparr>fv_dimension = 2, fv_index = \<lparr>ix_d = 2, ix_xb = [[Finite 0, Finite 0]]\<rparr>,
       fv_chunks = [''a''], fv_metadata = [[(''source'', Str ''a.txt'')]]\<rparr> [0, 0] 3
     = Inr ([0, FLT_MAX, FLT_MAX], [0, - 1, - 1])
   \<and> retrieve_loop
      \<lparr>fv_dimension = 2, fv_index = \<lparr>ix_d = 2, ix_xb = [[Finite 0, Finite 0]]\<rparr>,
       fv_chunks = [''a''], fv_metadata = [[(''source'', Str ''a.txt'')]]\<rparr>
      [0, FLT_MAX, FLT_MAX] [0, - 1, - 1] ([], [], [])
     = Inr ([''a'', ''a'', ''a''], [Str ''a.txt'', Str ''a.txt'', Str ''a.txt''], [1, 0, 0])
   \<and> fst (VectorStore_search fvec_L2sqr_ref
           \<lparr>w_fs = [], w_heap = [[(''text'', Str ''x'')]]\<rparr>
           \<lparr>vs_dimension = 1, vs_index_file = ''d/i'', vs_metadata_file = ''d/m'',
            vs_index = Some \<lparr>ix_d = 1, ix_xb = [[Finite 0]]\<rparr>, vs_metadata = [0]\<rparr> [1] 3)
     = Inr [1, 2, 3]
   \<and> fst (VectorStore_search fvec_L2sqr_ref
           \<lparr>w_fs = [], w_heap = []\<rparr>
           \<lparr>vs_dimension = 1, vs_index_file = ''d/i'', vs_metadata_file = ''d/m'',
            vs_index = Some \<lparr>ix_d = 1, ix_xb = []\<rparr>, vs_metadata = []\<rparr> [1] 3)
     = Inl IndexError"
  by code_simp





text \<open>
  Claim C7.  On a store without chunks \<open>query_documents\<close> returns the canned answer with
  no sources and no scores, as a regular response, and calls neither the embedder nor the
  generator, whatever the distance function of the index.
\<close>

theorem query_empty_store:
  assumes "get_total_chunks vector_store = 0"
  shows "query_documents fvec_L2sqr embed_query gen vector_store question
     = (Inr \<lparr>r_question = question,
              r_answer = ''No documents uploaded yet. Please upload documents first.'',
              r_sources = [], r_similarity_scores = [], r_num_chunks_retrieved = None\<rparr>,
        [])"
  using assms by (simp add: query_documents_def)

theorem query_empty_store_witness:
  "get_total_chunks (FAISSVectorStore_init 384) = 0
   \<and> query_documents fvec_L2sqr_ref (Inl \<circ> OtherError) None (FAISSVectorStore_init 384) ''why?''
     = (Inr \<lparr>r_question = ''why?'',
              r_answer = ''No documents uploaded yet. Please upload documents first.'',
              r_sources = [], r_similarity_scores = [], r_num_chunks_retrieved = None\<rparr>,
        [])"
proof -
  have h: "get_total_chunks (FAISSVectorStore_init 384) = 0"
    by (simp add: get_total_chunks_def FAISSVectorStore_init_def)
  from query_empty_store [OF h] h show ?thesis by blast
qed

text \<open>
  Claim C9.  \<open>generate_answer\<close> returns a string for every question and context and for
  every behaviour of the generator.  Without a generator the string is the fallback with
  the first 500 characters of the context; when the generator raises, or its result has
  no usable \<open>generated_text\<close>, the string is the error fallback with the first 500
  characters of the context; otherwise it is the stripped generated text.
\<close>

theorem generate_answer_total:
  "(\<exists>s. fst (generate_answer gen question context) = Inr s)
   \<and> (gen = None \<longrightarrow>
        generate_answer gen question context
          = (Inr (''LLM not available. Retrieved context: '' @ take 500 context), []))
   \<and> (\<forall>g e. gen = Some g
          \<and> (g (build_prompt question context) = Inl e
             \<or> (\<exists>r. g (build_prompt question context) = Inr r \<and> generated_text r = Inl e)) \<longrightarrow>
        fst (generate_answer gen question context)
          = Inr (''Error generating answer. Retrieved context: '' @ take 500 context))
   \<and> (\<forall>g r a. gen = Some g \<and> g (build_prompt question context) = Inr r
          \<and> generated_text r = Inr a \<longrightarrow>
        fst (generate_answer gen question context) = Inr a)"
  by (cases gen) (auto simp: generate_answer_def Let_def split: sum.splits)

theorem generate_answer_total_witness:
  "generate_answer None ''q'' ''some context''
     = (Inr ''LLM not available. Retrieved context: some context'', [])
   \<and> fst (generate_answer (Some (Inl \<circ> OtherError)) ''q'' ''some context'')
     = Inr ''Error generating answer. Retrieved context: some context''
   \<and> fst (generate_answer (Some (Inr \<circ> (\<lambda>p. [[(''generated_text'', Str '' yes '')]]))) ''q'' ''c'')
     = Inr ''yes''"
proof -
  let ?g1 = "Inl \<circ> OtherError :: generator"
  let ?g2 = "Inr \<circ> (\<lambda>p. [[(''generated_text'', Str '' yes '')]]) :: generator"
  have e1: "Some ?g1 = Some ?g1
     \<and> (?g1 (build_prompt ''q'' ''some context'') = Inl (OtherError (build_prompt ''q'' ''some context''))
        \<or> (\<exists>r. ?g1 (build_prompt ''q'' ''some context'') = Inr r
               \<and> generated_text r = Inl (OtherError (build_prompt ''q'' ''some context''))))"
    by simp
  have e2: "Some ?g2 = Some ?g2 \<and> ?g2 (build_prompt ''q'' ''c'') = Inr [[(''generated_text'', Str '' yes '')]]
     \<and> generated_text [[(''generated_text'', Str '' yes '')]] = Inr ''yes''"
    by (simp add: generated_text_def py_strip_def is_space_def)
  from generate_answer_total [of None "''q''" "''some context''"]
  have c0: "generate_answer None ''q'' ''some context''
     = (Inr (''LLM not available. Retrieved context: '' @ take 500 ''some context''), [])"
    by blast
  from generate_answer_total [of "Some ?g1" "''q''" "''some context''"] e1
  have c1: "fst (generate_answer (Some ?g1) ''q'' ''some context'')
     = Inr (''Error generating answer. Retrieved context: '' @ take 500 ''some context'')"
    by blast
  from generate_answer_total [of "Some ?g2" "''q''" "''c''"] e2
  have c2: "fst (generate_answer (Some ?g2) ''q'' ''c'') = Inr ''yes''"
    by blast
  from c0 c1 c2 show ?thesis by simp
qed

lemma py_join_concat:
  "py_join sep parts
     = (case parts of [] \<Rightarrow> [] | c # cs \<Rightarrow> c @ concat (map (\<lambda>x. sep @ x) cs))"
  by (induction sep parts rule: py_join.induct) simp_all

lemma build_prompt_text:
  "build_prompt question (py_join (newline @ newline) parts)
     = ''Answer the following question based only on the context provided.''
       @ [CHR 0x0A, CHR 0x0A] @ ''Context: ''
       @ take 1500 (case parts of [] \<Rightarrow> []
                    | c # cs \<Rightarrow> c @ concat (map (\<lambda>x. [CHR 0x0A, CHR 0x0A] @ x) cs))
       @ [CHR 0x0A, CHR 0x0A] @ ''Question: '' @ question @ [CHR 0x0A, CHR 0x0A]
       @ ''Provide a clear, concise answer based on the context above.''"
  unfolding build_prompt_def py_join_concat [of "newline @ newline" parts]
  by (cases parts) (simp_all add: newline_def)

text \<open>
  Claim C8.  On a store with chunks, when embedding, search and the retrieval loop have
  succeeded and a generator is loaded, the generator is called exactly once.  The context
  inside its prompt is the first 1500 characters of the text that consists of the
  retrieved chunks in their order, with two line feed characters between one chunk and
  the next.  Conversely every call of the generator that a query makes has a prompt of
  this form.
\<close>

theorem query_context_truncated:
  "(get_total_chunks vector_store \<noteq> 0 \<and> embed_query question = Inr question_embedding
      \<and> FAISSVectorStore_search fvec_L2sqr vector_store question_embedding 3
          = Inr (distances, indices)
      \<and> retrieve_loop vector_store distances indices ([], [], [])
          = Inr (retrieved_chunks, sources, similarity_scores) \<longrightarrow>
      snd (query_documents fvec_L2sqr embed_query (Some g) vector_store question)
        = [EmbedQuery question,
           Generate
             (''Answer the following question based only on the context provided.''
              @ [CHR 0x0A, CHR 0x0A] @ ''Context: ''
              @ take 1500
                  (case retrieved_chunks of [] \<Rightarrow> []
                   | c # cs \<Rightarrow> c @ concat (map (\<lambda>x. [CHR 0x0A, CHR 0x0A] @ x) cs))
              @ [CHR 0x0A, CHR 0x0A] @ ''Question: '' @ question @ [CHR 0x0A, CHR 0x0A]
              @ ''Provide a clear, concise answer based on the context above.'')])
   \<and> (Generate p \<in> set (snd (query_documents fvec_L2sqr embed_query gen vector_store question))
      \<longrightarrow>
        (\<exists>qe D I rc srcs scores.
           embed_query question = Inr qe
           \<and> FAISSVectorStore_search fvec_L2sqr vector_store qe 3 = Inr (D, I)
           \<and> retrieve_loop vector_store D I ([], [], []) = Inr (rc, srcs, scores)
           \<and> p = ''Answer the following question based only on the context provided.''
                 @ [CHR 0x0A, CHR 0x0A] @ ''Context: ''
                 @ take 1500
                     (case rc of [] \<Rightarrow> []
                      | c # cs \<Rightarrow> c @ concat (map (\<lambda>x. [CHR 0x0A, CHR 0x0A] @ x) cs))
                 @ [CHR 0x0A, CHR 0x0A] @ ''Question: '' @ question @ [CHR 0x0A, CHR 0x0A]
                 @ ''Provide a clear, concise answer based on the context above.''))"
proof (intro conjI impI)
  assume "get_total_chunks vector_store \<noteq> 0 \<and> embed_query question = Inr question_embedding
      \<and> FAISSVectorStore_search fvec_L2sqr vector_store question_embedding 3
          = Inr (distances, indices)
      \<and> retrieve_loop vector_store distances indices ([], [], [])
          = Inr (retrieved_chunks, sources, similarity_scores)"
  then have "snd (query_documents fvec_L2sqr embed_query (Some g) vector_store question)
        = [EmbedQuery question,
           Generate (build_prompt question (py_join (newline @ newline) retrieved_chunks))]"
    by (simp add: query_documents_def generate_answer_def Let_def split: sum.splits)
  then show "snd (query_documents fvec_L2sqr embed_query (Some g) vector_store question)
        = [EmbedQuery question,
           Generate
             (''Answer the following question based only on the context provided.''
              @ [CHR 0x0A, CHR 0x0A] @ ''Context: ''
              @ take 1500
                  (case retrieved_chunks of [] \<Rightarrow> []
                   | c # cs \<Rightarrow> c @ concat (map (\<lambda>x. [CHR 0x0A, CHR 0x0A] @ x) cs))
              @ [CHR 0x0A, CHR 0x0A] @ ''Question: '' @ question @ [CHR 0x0A, CHR 0x0A]
              @ ''Provide a clear, concise answer based on the context above.'')]"
    by (simp only: build_prompt_text)
next
  assume a: "Generate p \<in> set (snd (query_documents fvec_L2sqr embed_query gen vector_store question))"
  show "\<exists>qe D I rc srcs scores.
           embed_query question = Inr qe
           \<and> FAISSVectorStore_search fvec_L2sqr vector_store qe 3 = Inr (D, I)
           \<and> retrieve_loop vector_store D I ([], [], []) = Inr (rc, srcs, scores)
           \<and> p = ''Answer the following question based only on the context provided.''
                 @ [CHR 0x0A, CHR 0x0A] @ ''Context: ''
                 @ take 1500
                     (case rc of [] \<Rightarrow> []
                      | c # cs \<Rightarrow> c @ concat (map (\<lambda>x. [CHR 0x0A, CHR 0x0A] @ x) cs))
                 @ [CHR 0x0A, CHR 0x0A] @ ''Question: '' @ question @ [CHR 0x0A, CHR 0x0A]
                 @ ''Provide a clear, concise answer based on the context above.''"
  proof (cases "get_total_chunks vector_store = 0")
    case True
    with a show ?thesis by (simp add: query_documents_def)
  next
    case nonempty: False
    show ?thesis
    proof (cases "embed_query question")
      case (Inl e)
      with a nonempty show ?thesis by (simp add: query_documents_def)
    next
      case qe: (Inr qe)
      show ?thesis
      proof (cases "FAISSVectorStore_search fvec_L2sqr vector_store qe 3")
        case (Inl e)
        with a nonempty qe show ?thesis by (simp add: query_documents_def)
      next
        case (Inr DI)
        obtain D I where DI: "DI = (D, I)" by (cases DI)
        show ?thesis
        proof (cases "retrieve_loop vector_store D I ([], [], [])")
          case (Inl e)
          with a nonempty qe Inr DI show ?thesis by (simp add: query_documents_def)
        next
          case lp: (Inr acc)
          obtain rc srcs scores where acc: "acc = (rc, srcs, scores)" by (cases acc)
          from a nonempty qe Inr DI lp acc
          have "p = build_prompt question (py_join (newline @ newline) rc)"
            by (cases gen)
               (auto simp: query_documents_def generate_answer_def Let_def split: sum.splits)
          then have "p = ''Answer the following question based only on the context provided.''
                 @ [CHR 0x0A, CHR 0x0A] @ ''Context: ''
                 @ take 1500
                     (case rc of [] \<Rightarrow> []
                      | c # cs \<Rightarrow> c @ concat (map (\<lambda>x. [CHR 0x0A, CHR 0x0A] @ x) cs))
                 @ [CHR 0x0A, CHR 0x0A] @ ''Question: '' @ question @ [CHR 0x0A, CHR 0x0A]
                 @ ''Provide a clear, concise answer based on the context above.''"
            by (simp only: build_prompt_text)
          with qe Inr DI lp acc show ?thesis by blast
        qed
      qed
    qed
  qed
qed


theorem query_context_truncated_witness:
  "snd (query_documents fvec_L2sqr_ref (Inr \<circ> (\<lambda>q. [0]))
          (Some (Inr \<circ> (\<lambda>p. [[(''generated_text'', Str ''yes'')]])))
          \<lparr>fv_dimension = 1,
           fv_index = \<lparr>ix_d = 1, ix_xb = [[Finite 0], [Finite 1], [Finite (- 1)]]\<rparr>,
           fv_chunks = [replicate 600 (CHR ''a''), replicate 600 (CHR ''b''),
                        replicate 600 (CHR ''c'')],
           fv_metadata = [[(''source'', Str ''f'')], [(''source'', Str ''f'')], []]\<rparr> ''q'')
     = [EmbedQuery ''q'',
        Generate
          (''Answer the following question based only on the context provided.''
           @ [CHR 0x0A, CHR 0x0A] @ ''Context: ''
           @ (replicate 600 (CHR ''a'') @ [CHR 0x0A, CHR 0x0A] @ replicate 600 (CHR ''b'')
              @ [CHR 0x0A, CHR 0x0A] @ replicate 296 (CHR ''c''))
           @ [CHR 0x0A, CHR 0x0A] @ ''Question: '' @ ''q'' @ [CHR 0x0A, CHR 0x0A]
           @ ''Provide a clear, concise answer based on the context above.'')]
   \<and> (\<exists>qe D I rc srcs scores.
         (Inr \<circ> (\<lambda>q. [0]) :: string \<Rightarrow> error + vec) ''q'' = Inr qe
         \<and> FAISSVectorStore_search fvec_L2sqr_ref
              \<lparr>fv_dimension = 1,
               fv_index = \<lparr>ix_d = 1, ix_xb = [[Finite 0], [Finite 1], [Finite (- 1)]]\<rparr>,
               fv_chunks = [replicate 600 (CHR ''a''), replicate 600 (CHR ''b''),
                            replicate 600 (CHR ''c'')],
               fv_metadata = [[(''source'', Str ''f'')], [(''source'', Str ''f'')], []]\<rparr> qe 3
             = Inr (D, I)
         \<and> retrieve_loop
              \<lparr>fv_dimension = 1,
               fv_index = \<lparr>ix_d = 1, ix_xb = [[Finite 0], [Finite 1], [Finite (- 1)]]\<rparr>,
               fv_chunks = [replicate 600 (CHR ''a''), replicate 600 (CHR ''b''),
                            replicate 600 (CHR ''c'')],
               fv_metadata = [[(''source'', Str ''f'')], [(''source'', Str ''f'')], []]\<rparr>
              D I ([], [], []) = Inr (rc, srcs, scores)
         \<and> ''Answer the following question based only on the context provided.''
           @ [CHR 0x0A, CHR 0x0A] @ ''Context: ''
           @ (replicate 600 (CHR ''a'') @ [CHR 0x0A, CHR 0x0A] @ replicate 600 (CHR ''b'')
              @ [CHR 0x0A, CHR 0x0A] @ replicate 296 (CHR ''c''))
           @ [CHR 0x0A, CHR 0x0A] @ ''Question: '' @ ''q'' @ [CHR 0x0A, CHR 0x0A]
           @ ''Provide a clear, concise answer based on the context above.''
           = ''Answer the following question based only on the context provided.''
                 @ [CHR 0x0A, CHR 0x0A] @ ''Context: ''
                 @ take 1500
                     (case rc of [] \<Rightarrow> []
                      | c # cs \<Rightarrow> c @ concat (map (\<lambda>x. [CHR 0x0A, CHR 0x0A] @ x) cs))
                 @ [CHR 0x0A, CHR 0x0A] @ ''Question: '' @ ''q'' @ [CHR 0x0A, CHR 0x0A]
                 @ ''Provide a clear, concise answer based on the context above.'')"
proof -
  let ?A = "replicate 600 (CHR ''a'')"
  let ?B = "replicate 600 (CHR ''b'')"
  let ?C = "replicate 600 (CHR ''c'')"
  let ?vs = "\<lparr>fv_dimension = 1,
           fv_index = \<lparr>ix_d = 1, ix_xb = [[Finite 0], [Finite 1], [Finite (- 1)]]\<rparr>,
           fv_chunks = [?A, ?B, ?C],
           fv_metadata = [[(''source'', Str ''f'')], [(''source'', Str ''f'')], []]\<rparr>"
  let ?E = "Inr \<circ> (\<lambda>q. [0]) :: string \<Rightarrow> error + vec"
  let ?G = "Inr \<circ> (\<lambda>p. [[(''generated_text'', Str ''yes'')]]) :: generator"
  let ?ctx = "?A @ [CHR 0x0A, CHR 0x0A] @ ?B @ [CHR 0x0A, CHR 0x0A] @ replicate 296 (CHR ''c'')"
  let ?P = "''Answer the following question based only on the context provided.''
           @ [CHR 0x0A, CHR 0x0A] @ ''Context: '' @ ?ctx
           @ [CHR 0x0A, CHR 0x0A] @ ''Question: '' @ ''q'' @ [CHR 0x0A, CHR 0x0A]
           @ ''Provide a clear, concise answer based on the context above.''"
  note T = query_context_truncated [where fvec_L2sqr = fvec_L2sqr_ref and vector_store = "?vs"
      and embed_query = "?E" and question = "''q''" and question_embedding = "[0]"
      and distances = "[0, 1, 1]" and indices = "[0, 1, 2]"
      and retrieved_chunks = "[?A, ?B, ?C]"
      and sources = "[Str ''f'', Str ''f'', Str ''unknown'']"
      and similarity_scores = "[1, 1 / 2, 1 / 2]" and g = "?G" and gen = "Some ?G" and p = "?P"]
  have ctx: "take 1500 (case [?A, ?B, ?C] of [] \<Rightarrow> []
               | c # cs \<Rightarrow> c @ concat (map (\<lambda>x. [CHR 0x0A, CHR 0x0A] @ x) cs)) = ?ctx"
    by simp
  have h1: "get_total_chunks ?vs \<noteq> 0" by (simp add: get_total_chunks_def)
  have h2: "?E ''q'' = Inr [0]" by simp
  have h3: "FAISSVectorStore_search fvec_L2sqr_ref ?vs [0] 3 = Inr ([0, 1, 1], [0, 1, 2])"
    by code_simp
  have h4: "retrieve_loop ?vs [0, 1, 1] [0, 1, 2] ([], [], [])
      = Inr ([?A, ?B, ?C], [Str ''f'', Str ''f'', Str ''unknown''], [1, 1 / 2, 1 / 2])"
    by code_simp
  have h: "get_total_chunks ?vs \<noteq> 0 \<and> ?E ''q'' = Inr [0]
      \<and> FAISSVectorStore_search fvec_L2sqr_ref ?vs [0] 3 = Inr ([0, 1, 1], [0, 1, 2])
      \<and> retrieve_loop ?vs [0, 1, 1] [0, 1, 2] ([], [], [])
          = Inr ([?A, ?B, ?C], [Str ''f'', Str ''f'', Str ''unknown''], [1, 1 / 2, 1 / 2])"
    using h1 h2 h3 h4 by (intro conjI)
  have c1: "snd (query_documents fvec_L2sqr_ref ?E (Some ?G) ?vs ''q'')
      = [EmbedQuery ''q'', Generate ?P]"
    using mp [OF conjunct1 [OF T] h] by (simp only: ctx)
  have m: "Generate ?P \<in> set (snd (query_documents fvec_L2sqr_ref ?E (Some ?G) ?vs ''q''))"
    unfolding c1 by simp
  have c2: "\<exists>qe D I rc srcs scores.
         ?E ''q'' = Inr qe
         \<and> FAISSVectorStore_search fvec_L2sqr_ref ?vs qe 3 = Inr (D, I)
         \<and> retrieve_loop ?vs D I ([], [], []) = Inr (rc, srcs, scores)
         \<and> ?P = ''Answer the following question based only on the context provided.''
                 @ [CHR 0x0A, CHR 0x0A] @ ''Context: ''
                 @ take 1500
                     (case rc of [] \<Rightarrow> []
                      | c # cs \<Rightarrow> c @ concat (map (\<lambda>x. [CHR 0x0A, CHR 0x0A] @ x) cs))
                 @ [CHR 0x0A, CHR 0x0A] @ ''Question: '' @ ''q'' @ [CHR 0x0A, CHR 0x0A]
                 @ ''Provide a clear, concise answer based on the context above.''"
    by (rule mp [OF conjunct2 [OF T] m])
  show ?thesis by (rule conjI [OF c1 c2])
qed

text \<open>
  Claim C10.  Whatever \<open>VectorStore.search\<close> returns or raises, and whatever the
  distance function of the index, the store object (its
  index and its list of metadata records) and the files are as before, and every dict
  that existed before the call has its entries unchanged.  When the call returns, every
  result is a dict allocated by the call, whose entries are those of a stored record
  with \<open>'distance'\<close> set.
\<close>

theorem VectorStore_search_read_only:
  assumes "VectorStore_search fvec_L2sqr w self query_vector k = (r, self', w')"
  shows "self' = self \<and> w_fs w' = w_fs w
     \<and> length (w_heap w) \<le> length (w_heap w')
     \<and> (\<forall>a < length (w_heap w). w_heap w' ! a = w_heap w ! a)
     \<and> (list_all (\<lambda>m. m < length (w_heap w)) (vs_metadata self) \<longrightarrow>
          (\<forall>res. r = Inr res \<longrightarrow>
             (\<forall>a \<in> set res. length (w_heap w) \<le> a \<and> a < length (w_heap w')
                \<and> (\<exists>m \<in> set (vs_metadata self). \<exists>d.
                      w_heap w' ! a = AList.update ''distance'' (Num d) (w_heap w ! m)))))"
proof (cases "vs_index self")
  case None
  with assms show ?thesis by (auto simp: VectorStore_search_def)
next
  case (Some ix)
  show ?thesis
  proof (cases "index_search fvec_L2sqr ix (map astype_float32 query_vector) k")
    case (Inl e)
    with Some assms show ?thesis by (auto simp: VectorStore_search_def)
  next
    case (Inr DI)
    obtain D I where DI: "DI = (D, I)" by (cases DI)
    obtain r0 h0 where lp: "search_loop self (w_heap w) D I [] = (r0, h0)"
      by (cases "search_loop self (w_heap w) D I []")
    from assms Some Inr DI lp
    have eq: "r = r0" "self' = self" "w' = w\<lparr>w_heap := h0\<rparr>"
      by (simp_all add: VectorStore_search_def)
    from search_loop_frame [OF lp]
    have fr: "length (w_heap w) \<le> length h0" "\<forall>a < length (w_heap w). h0 ! a = w_heap w ! a"
      by simp_all
    have res: "\<forall>a \<in> set res. length (w_heap w) \<le> a \<and> a < length h0
                \<and> (\<exists>m \<in> set (vs_metadata self). \<exists>d.
                      h0 ! a = AList.update ''distance'' (Num d) (w_heap w ! m))"
      if wf: "list_all (\<lambda>m. m < length (w_heap w)) (vs_metadata self)" and r: "r = Inr res" for res
    proof -
      from lp r eq(1) have "search_loop self (w_heap w) D I [] = (Inr res, h0)" by simp
      moreover from wf have "\<forall>m \<in> set (vs_metadata self). m < length (w_heap w)"
        by (simp add: list_all_iff)
      ultimately show ?thesis
        by (rule search_loop_results) simp_all
    qed
    show ?thesis
      using eq fr res by simp
  qed
qed

theorem VectorStore_search_read_only_witness:
  "VectorStore_search fvec_L2sqr_ref
      \<lparr>w_fs = [], w_heap = [[(''text'', Str ''x'')], [(''text'', Str ''y'')]]\<rparr>
      \<lparr>vs_dimension = 1, vs_index_file = ''d/i'', vs_metadata_file = ''d/m'',
       vs_index = Some \<lparr>ix_d = 1, ix_xb = [[Finite 0], [Finite 3]]\<rparr>, vs_metadata = [0, 1]\<rparr> [1] 2
     = (Inr [2, 3],
        \<lparr>vs_dimension = 1, vs_index_file = ''d/i'', vs_metadata_file = ''d/m'',
         vs_index = Some \<lparr>ix_d = 1, ix_xb = [[Finite 0], [Finite 3]]\<rparr>, vs_metadata = [0, 1]\<rparr>,
        \<lparr>w_fs = [],
         w_heap = [[(''text'', Str ''x'')], [(''text'', Str ''y'')],
                   [(''text'', Str ''x''), (''distance'', Num 1)],
                   [(''text'', Str ''y''), (''distance'', Num 4)]]\<rparr>)
   \<and> w_heap \<lparr>w_fs = [],
         w_heap = [[(''text'', Str ''x'')], [(''text'', Str ''y'')],
                   [(''text'', Str ''x''), (''distance'', Num 1)],
                   [(''text'', Str ''y''), (''distance'', Num 4)]]\<rparr> ! 1
       = w_heap \<lparr>w_fs = [], w_heap = [[(''text'', Str ''x'')], [(''text'', Str ''y'')]]\<rparr> ! 1
   \<and> (\<exists>m d. m \<in> set [0, 1 :: nat]
         \<and> w_heap \<lparr>w_fs = [],
               w_heap = [[(''text'', Str ''x'')], [(''text'', Str ''y'')],
                         [(''text'', Str ''x''), (''distance'', Num 1)],
                         [(''text'', Str ''y''), (''distance'', Num 4)]]\<rparr> ! 3
             = AList.update ''distance'' (Num d)
                 (w_heap \<lparr>w_fs = [], w_heap = [[(''text'', Str ''x'')], [(''text'', Str ''y'')]]\<rparr> ! m))"
proof -
  let ?w = "\<lparr>w_fs = [], w_heap = [[(''text'', Str ''x'')], [(''text'', Str ''y'')]]\<rparr>"
  let ?self = "\<lparr>vs_dimension = 1, vs_index_file = ''d/i'', vs_metadata_file = ''d/m'',
       vs_index = Some \<lparr>ix_d = 1, ix_xb = [[Finite 0], [Finite 3]]\<rparr>, vs_metadata = [0, 1]\<rparr>"
  let ?h = "[[(''text'', Str ''x'')], [(''text'', Str ''y'')],
                   [(''text'', Str ''x''), (''distance'', Num 1)],
                   [(''text'', Str ''y''), (''distance'', Num 4)]]"
  have e: "VectorStore_search fvec_L2sqr_ref ?w ?self [1] 2 = (Inr [2, 3], ?self, \<lparr>w_fs = [], w_heap = ?h\<rparr>)"
    by code_simp
  note T = VectorStore_search_read_only [OF e]
  from T have "\<forall>a < length (w_heap ?w). w_heap \<lparr>w_fs = [], w_heap = ?h\<rparr> ! a = w_heap ?w ! a"
    by blast
  moreover have "1 < length (w_heap ?w)" by simp
  ultimately have c1: "w_heap \<lparr>w_fs = [], w_heap = ?h\<rparr> ! 1 = w_heap ?w ! 1"
    by blast
  have wf: "list_all (\<lambda>m. m < length (w_heap ?w)) (vs_metadata ?self)" by simp
  from T wf have "\<forall>a \<in> set [2, 3 :: nat]. length (w_heap ?w) \<le> a
        \<and> a < length (w_heap \<lparr>w_fs = [], w_heap = ?h\<rparr>)
        \<and> (\<exists>m \<in> set (vs_metadata ?self). \<exists>d.
              w_heap \<lparr>w_fs = [], w_heap = ?h\<rparr> ! a
                = AList.update ''distance'' (Num d) (w_heap ?w ! m))"
    by blast
  then have "\<exists>m \<in> set (vs_metadata ?self). \<exists>d.
              w_heap \<lparr>w_fs = [], w_heap = ?h\<rparr> ! 3
                = AList.update ''distance'' (Num d) (w_heap ?w ! m)"
    by simp
  then have c2: "\<exists>m d. m \<in> set [0, 1 :: nat]
         \<and> w_heap \<lparr>w_fs = [], w_heap = ?h\<rparr> ! 3
             = AList.update ''distance'' (Num d) (w_heap ?w ! m)"
    by (simp add: Bex_def)
  from e c1 c2 show ?thesis by (intro conjI)
qed

end
